theory Spec2Isabelle
  imports Main
begin

section \<open>Data model of the matchmaking server\<close>

text \<open>
  The server of \<^verbatim>\<open>main.go\<close> keeps three package-level variables: the map
  \<^verbatim>\<open>players\<close> from an id to a pointer to a \<^verbatim>\<open>Player\<close>, the slice \<^verbatim>\<open>pool\<close> of
  such pointers, and the map \<^verbatim>\<open>rooms\<close> from a room id to a slice of ids. The map
  and the slice share the \<^verbatim>\<open>Player\<close> objects they point to, and a second join with the
  same id allocates a second object, so the model keeps an explicit store: a pointer
  is an address (a natural number), \<open>heap\<close> gives the object at an address and
  \<open>nextAddr\<close> is the next address that an allocation returns. Go is garbage
  collected, so nothing is ever freed.

  The field \<^verbatim>\<open>OpponentID\<close> is a channel made with capacity 1; it is modelled by the
  list of the values buffered in it. \<^verbatim>\<open>CreatedAt\<close> is an abstract time stamp.
\<close>

record Player =
  ID :: string
  Matched :: bool
  CreatedAt :: nat
  OpponentID :: "string list"
  RoomID :: string

record ServerStats =
  TotalPlayers :: int
  WaitingPlayers :: int
  MatchedPlayers :: int
  ActiveRooms :: int

text \<open>
  The anonymous struct that \<^verbatim>\<open>statsHandler\<close> hands to its template embeds
  \<^verbatim>\<open>ServerStats\<close> and adds two fields. The list of waiting players is built by ranging
  over a map, whose order Go leaves unspecified, so it is modelled by the set of the
  pointers it holds.
\<close>

record StatsData = ServerStats +
  WaitingPlayersList :: "nat set"
  ActiveRoomsList :: "string \<rightharpoonup> string list"

record state =
  players :: "string \<rightharpoonup> nat"
  rooms :: "string \<rightharpoonup> string list"
  pool :: "nat list"
  heap :: "nat \<Rightarrow> Player"
  nextAddr :: nat

text \<open>
  What a handler writes to the client: \<^verbatim>\<open>http.Error\<close> with a status code and a
  message, or a JSON object given by the map literal of the source.
\<close>

datatype response = HttpError nat string | Json "(string \<times> string) list"

text \<open>
  What stops a background task for good: a send on a full channel never returns
  (\<open>Blocked\<close>), and an index beyond the end of a slice panics (\<open>IndexOutOfRange\<close>).
\<close>

datatype fault = Blocked | IndexOutOfRange

definition newPlayer :: "Player" where
  "newPlayer = \<lparr>ID = [], Matched = False, CreatedAt = 0, OpponentID = [], RoomID = []\<rparr>"

text \<open>The state at start-up: both maps empty, the pool \<^verbatim>\<open>nil\<close>, nothing allocated.\<close>

definition init :: state where
  "init = \<lparr>players = Map.empty, rooms = Map.empty, pool = [], heap = (\<lambda>a. newPlayer),
           nextAddr = 0\<rparr>"

section \<open>The result channel\<close>

text \<open>
  \<^verbatim>\<open>make(chan string, 1)\<close>: a send returns at once while fewer than one value is
  buffered and blocks otherwise; the \<^verbatim>\<open>select\<close> with a \<^verbatim>\<open>default\<close> branch of
  \<^verbatim>\<open>handleStatus\<close> takes the oldest buffered value when there is one.
\<close>

definition chan_send :: "string list \<Rightarrow> string \<Rightarrow> string list option" where
  "chan_send c v = (if length c < 1 then Some (c @ [v]) else None)"

definition chan_try_recv :: "string list \<Rightarrow> (string \<times> string list) option" where
  "chan_try_recv c = (case c of [] \<Rightarrow> None | v # r \<Rightarrow> Some (v, r))"

section \<open>The request handlers\<close>

text \<open>
  Each handler is modelled as one step on the state: the argument is the id taken
  from the request, the result is the response and the state afterwards.
  \<^verbatim>\<open>handleJoin\<close> and \<^verbatim>\<open>handleCancel\<close> hold \<^verbatim>\<open>poolMutex\<close> for all their accesses,
  so each of them is one step of the server. \<^verbatim>\<open>handleStatus\<close> is not: it holds the
  mutex for the lookup, releases it, receives from the channel without it and takes
  it again for the deletion. \<open>handleStatus\<close> below is the call when nothing else
  runs in between; its parts follow it.
\<close>

definition handleJoin :: "string \<Rightarrow> nat \<Rightarrow> state \<Rightarrow> response \<times> state" where
  "handleJoin playerID now s =
     (if playerID = [] then (HttpError 400 ''ID is required'', s)
      else
        let player = nextAddr s;
            s1 = s\<lparr>heap := (heap s)(player :=
                    \<lparr>ID = playerID, Matched = False, CreatedAt = now, OpponentID = [],
                     RoomID = []\<rparr>),
                  nextAddr := Suc (nextAddr s)\<rparr>;
            s2 = s1\<lparr>players := (players s1)(playerID \<mapsto> player)\<rparr>;
            s3 = s2\<lparr>pool := pool s2 @ [player]\<rparr>
        in (Json [(''status'', ''waiting''), (''playerID'', playerID)], s3))"

text \<open>
  The loop of \<^verbatim>\<open>handleCancel\<close> over the pool: the first entry whose \<^verbatim>\<open>ID\<close> is the
  given one is cut out and the loop ends.
\<close>

fun removeFromPool :: "(nat \<Rightarrow> Player) \<Rightarrow> string \<Rightarrow> nat list \<Rightarrow> nat list" where
  "removeFromPool h playerID [] = []"
| "removeFromPool h playerID (p # ps) =
     (if ID (h p) = playerID then ps else p # removeFromPool h playerID ps)"

definition handleCancel :: "string \<Rightarrow> state \<Rightarrow> response \<times> state" where
  "handleCancel playerID s =
     (if playerID = [] then (HttpError 400 ''ID is required'', s)
      else
        let s1 = s\<lparr>players := (players s)(playerID := None)\<rparr>;
            s2 = s1\<lparr>pool := removeFromPool (heap s1) playerID (pool s1)\<rparr>
        in (Json [(''status'', ''cancelled'')], s2))"

definition handleStatus :: "string \<Rightarrow> state \<Rightarrow> response \<times> state" where
  "handleStatus playerID s =
     (if playerID = [] then (HttpError 400 ''ID is required'', s)
      else
        case players s playerID of
          None \<Rightarrow> (HttpError 404 ''Player not found'', s)
        | Some player \<Rightarrow>
            (case chan_try_recv (OpponentID (heap s player)) of
               Some (opponentID, rest) \<Rightarrow>
                 (Json [(''status'', ''matched''), (''opponentID'', opponentID),
                        (''roomID'', RoomID (heap s player))],
                  s\<lparr>heap := (heap s)(player := (heap s player)\<lparr>OpponentID := rest\<rparr>),
                    players := (players s)(playerID := None)\<rparr>)
             | None \<Rightarrow> (Json [(''status'', ''waiting'')], s)))"

text \<open>
  The parts of \<^verbatim>\<open>handleStatus\<close> that change the state: the \<^verbatim>\<open>select\<close> on the
  channel of the player the lookup has found, and the deletion of the id that
  follows a successful receive. Other requests and the background tasks can run
  between the lookup and the receive and between the receive and the deletion.
\<close>

definition statusReceive :: "nat \<Rightarrow> state \<Rightarrow> string option \<times> state" where
  "statusReceive player s =
     (case chan_try_recv (OpponentID (heap s player)) of
        Some (opponentID, rest) \<Rightarrow>
          (Some opponentID,
           s\<lparr>heap := (heap s)(player := (heap s player)\<lparr>OpponentID := rest\<rparr>)\<rparr>)
      | None \<Rightarrow> (None, s))"

definition statusDelete :: "string \<Rightarrow> state \<Rightarrow> state" where
  "statusDelete playerID s = s\<lparr>players := (players s)(playerID := None)\<rparr>"

section \<open>The statistics\<close>

text \<open>
  \<^verbatim>\<open>getStats\<close> is the function of the second copy of the program;
  \<^verbatim>\<open>statsHandler\<close> of \<^verbatim>\<open>main.go\<close> computes the same four numbers and adds the two
  lists. \<^verbatim>\<open>len\<close> of a map is the number of its keys.
\<close>

definition getStats :: "state \<Rightarrow> ServerStats \<times> state" where
  "getStats s =
     (\<lparr>TotalPlayers = int (card (dom (players s))),
       WaitingPlayers = int (length (pool s)),
       MatchedPlayers = int (card (dom (players s))) - int (length (pool s)),
       ActiveRooms = int (card (dom (rooms s)))\<rparr>, s)"

definition statsHandler :: "state \<Rightarrow> StatsData \<times> state" where
  "statsHandler s =
     (\<lparr>TotalPlayers = int (card (dom (players s))),
       WaitingPlayers = int (length (pool s)),
       MatchedPlayers = int (card (dom (players s))) - int (length (pool s)),
       ActiveRooms = int (card (dom (rooms s))),
       WaitingPlayersList = {p \<in> ran (players s). \<not> Matched (heap s p)},
       ActiveRoomsList = rooms s\<rparr>, s)"

section \<open>The background tasks\<close>

text \<open>
  One iteration of the loop of \<^verbatim>\<open>matchPlayers\<close>, statement by statement; the
  argument \<open>roomID\<close> is the string \<^verbatim>\<open>uuid.New().String()\<close> returns in it.
\<close>

definition matchPlayers_iter :: "string \<Rightarrow> state \<Rightarrow> fault + state" where
  "matchPlayers_iter roomID s =
     (if 2 \<le> length (pool s) then
        let p1 = pool s ! 0;
            p2 = pool s ! 1;
            h1 = (heap s)(p1 := (heap s p1)\<lparr>RoomID := roomID\<rparr>);
            h2 = h1(p2 := (h1 p2)\<lparr>RoomID := roomID\<rparr>);
            h3 = h2(p1 := (h2 p1)\<lparr>Matched := True\<rparr>);
            h4 = h3(p2 := (h3 p2)\<lparr>Matched := True\<rparr>);
            pool' = drop 2 (pool s);
            rooms' = (rooms s)(roomID \<mapsto> [ID (h4 p1), ID (h4 p2)])
        in case chan_send (OpponentID (h4 p1)) (ID (h4 p2)) of
             None \<Rightarrow> Inl Blocked
           | Some c1 \<Rightarrow>
               let h5 = h4(p1 := (h4 p1)\<lparr>OpponentID := c1\<rparr>)
               in case chan_send (OpponentID (h5 p2)) (ID (h5 p1)) of
                    None \<Rightarrow> Inl Blocked
                  | Some c2 \<Rightarrow>
                      Inr (s\<lparr>heap := h5(p2 := (h5 p2)\<lparr>OpponentID := c2\<rparr>),
                            pool := pool', rooms := rooms'\<rparr>)
      else Inr s)"

text \<open>
  One pass of \<^verbatim>\<open>cleanupOldRooms\<close> of \<^verbatim>\<open>main.go\<close>. The loop ranges over \<^verbatim>\<open>rooms\<close>
  and deletes from it; what it decides for a room depends on \<^verbatim>\<open>players\<close> only,
  which the loop does not change, so the pass is given room by room. Reading
  \<^verbatim>\<open>roomPlayers[0]\<close> and \<^verbatim>\<open>roomPlayers[1]\<close> panics on a slice shorter than two.
\<close>

definition cleanupOldRooms_iter :: "state \<Rightarrow> fault + state" where
  "cleanupOldRooms_iter s =
     (if \<exists>roomPlayers \<in> ran (rooms s). length roomPlayers < 2 then Inl IndexOutOfRange
      else Inr (s\<lparr>rooms := (\<lambda>room.
        case rooms s room of
          None \<Rightarrow> None
        | Some roomPlayers \<Rightarrow>
            let p1Exists = (players s (roomPlayers ! 0) \<noteq> None);
                p2Exists = (players s (roomPlayers ! 1) \<noteq> None)
            in if \<not> p1Exists \<or> \<not> p2Exists then None else Some roomPlayers)\<rparr>))"

text \<open>
  The second copy of the program has the same pass with another test: it deletes a
  room only when both of its players are gone.
\<close>

definition cleanupOldRooms_iter_copy :: "state \<Rightarrow> fault + state" where
  "cleanupOldRooms_iter_copy s =
     (if \<exists>roomPlayers \<in> ran (rooms s). length roomPlayers < 2 then Inl IndexOutOfRange
      else Inr (s\<lparr>rooms := (\<lambda>room.
        case rooms s room of
          None \<Rightarrow> None
        | Some roomPlayers \<Rightarrow>
            let p1Exists = (players s (roomPlayers ! 0) \<noteq> None);
                p2Exists = (players s (roomPlayers ! 1) \<noteq> None)
            in if \<not> p1Exists \<and> \<not> p2Exists then None else Some roomPlayers)\<rparr>))"

section \<open>Runs of the server\<close>

text \<open>
  An event is one step of the server: a request served under \<^verbatim>\<open>poolMutex\<close>, one
  iteration of a background task, a poll that nothing interrupts (\<open>Status\<close>), or
  one of the two parts of a poll that other steps interrupt (\<open>StatusReceive\<close> on
  the player the lookup has found, \<open>StatusDelete\<close> on the id polled). A run
  applies a list of events in order and stops at the first fault. The two parts of
  a poll are admitted at any point of a run and for any player and id, so every
  execution of the program is a run, and what holds of all runs holds of all
  executions. The receive is the one step made outside \<^verbatim>\<open>poolMutex\<close>; it reads and
  writes one channel only, which the matching loop writes once, by a send.
\<close>

datatype event =
    Join string nat
  | Cancel string
  | Status string
  | StatusReceive nat
  | StatusDelete string
  | Stats
  | Tick string
  | Cleanup

fun step :: "event \<Rightarrow> state \<Rightarrow> fault + state" where
  "step (Join playerID now) s = Inr (snd (handleJoin playerID now s))"
| "step (Cancel playerID) s = Inr (snd (handleCancel playerID s))"
| "step (Status playerID) s = Inr (snd (handleStatus playerID s))"
| "step (StatusReceive player) s = Inr (snd (statusReceive player s))"
| "step (StatusDelete playerID) s = Inr (statusDelete playerID s)"
| "step Stats s = Inr (snd (statsHandler s))"
| "step (Tick roomID) s = matchPlayers_iter roomID s"
| "step Cleanup s = cleanupOldRooms_iter s"

fun run :: "event list \<Rightarrow> state \<Rightarrow> fault + state" where
  "run [] s = Inr s"
| "run (e # es) s = (case step e s of Inl f \<Rightarrow> Inl f | Inr s' \<Rightarrow> run es s')"

text \<open>
  A run joins freshly when no \<open>Join\<close> in it names an id that an entry of the pool
  carries at that moment.
\<close>

fun poolIDs :: "state \<Rightarrow> string list" where
  "poolIDs s = map (\<lambda>p. ID (heap s p)) (pool s)"

fun freshJoin :: "event \<Rightarrow> state \<Rightarrow> bool" where
  "freshJoin (Join playerID now) s = (playerID \<notin> set (poolIDs s))"
| "freshJoin e s = True"

fun freshJoins :: "event list \<Rightarrow> state \<Rightarrow> bool" where
  "freshJoins [] s = True"
| "freshJoins (e # es) s =
     (freshJoin e s \<and> (case step e s of Inl f \<Rightarrow> True | Inr s' \<Rightarrow> freshJoins es s'))"

fun isJoinOf :: "string \<Rightarrow> event \<Rightarrow> bool" where
  "isJoinOf playerID (Join q now) = (q = playerID)"
| "isJoinOf playerID e = False"

section \<open>Invariants of the reachable states\<close>

text \<open>
  What every state reached from \<open>init\<close> satisfies: the pool holds each pointer
  once, every object in the pool is allocated, unmatched, with an empty result
  channel and no room; no result channel holds more than one value; every
  registered id points to an allocated object that carries this id; every room has
  two members; the empty id is never registered.
\<close>

definition wellFormed :: "state \<Rightarrow> bool" where
  "wellFormed s \<longleftrightarrow>
     distinct (pool s) \<and>
     (\<forall>p \<in> set (pool s). p < nextAddr s \<and> \<not> Matched (heap s p) \<and>
        OpponentID (heap s p) = [] \<and> RoomID (heap s p) = []) \<and>
     (\<forall>p. length (OpponentID (heap s p)) \<le> 1) \<and>
     (\<forall>i p. players s i = Some p \<longrightarrow> p < nextAddr s \<and> ID (heap s p) = i) \<and>
     (\<forall>roomPlayers \<in> ran (rooms s). length roomPlayers = 2) \<and>
     players s [] = None"

section \<open>Auxiliary lemmas\<close>

lemma set_removeFromPool: "set (removeFromPool h i ps) \<subseteq> set ps"
  by (induction ps) auto

lemma distinct_removeFromPool: "distinct ps \<Longrightarrow> distinct (removeFromPool h i ps)"
proof (induction ps)
  case Nil
  then show ?case by simp
next
  case (Cons p ps)
  then show ?case using set_removeFromPool [of h i ps] by auto
qed

lemma removeFromPool_absent:
  "\<forall>p \<in> set ps. ID (h p) \<noteq> i \<Longrightarrow> removeFromPool h i ps = ps"
  by (induction ps) auto

lemma removeFromPool_filter:
  "distinct (map (\<lambda>p. ID (h p)) ps) \<Longrightarrow>
   removeFromPool h i ps = filter (\<lambda>p. ID (h p) \<noteq> i) ps"
proof (induction ps)
  case Nil
  then show ?case by simp
next
  case (Cons p ps)
  show ?case
  proof (cases "ID (h p) = i")
    case True
    with Cons.prems have "\<forall>q \<in> set ps. ID (h q) \<noteq> i" by (auto simp: image_iff)
    then have "filter (\<lambda>p. ID (h p) \<noteq> i) ps = ps" by simp
    with True show ?thesis by simp
  next
    case False
    with Cons show ?thesis by simp
  qed
qed

lemma wf_init: "wellFormed init"
  by (simp add: wellFormed_def init_def newPlayer_def)

lemma wf_handleJoin: "wellFormed s \<Longrightarrow> wellFormed (snd (handleJoin i t s))"
  by (auto simp: wellFormed_def handleJoin_def Let_def less_Suc_eq)

lemma wf_handleCancel: "wellFormed s \<Longrightarrow> wellFormed (snd (handleCancel i s))"
  using set_removeFromPool [of "heap s" i "pool s"]
  by (auto simp: wellFormed_def handleCancel_def Let_def distinct_removeFromPool)

lemma wf_statusReceive:
  assumes "wellFormed s"
  shows "wellFormed (snd (statusReceive p s))"
proof (cases "OpponentID (heap s p)")
  case Nil
  with assms show ?thesis by (simp add: statusReceive_def chan_try_recv_def)
next
  case (Cons v rest)
  from assms have "length (OpponentID (heap s p)) \<le> 1" by (simp add: wellFormed_def)
  with Cons have "rest = []" by simp
  with Cons have "snd (statusReceive p s) =
      s\<lparr>heap := (heap s)(p := (heap s p)\<lparr>OpponentID := []\<rparr>)\<rparr>"
    by (simp add: statusReceive_def chan_try_recv_def)
  with assms show ?thesis by (auto simp: wellFormed_def)
qed

lemma wf_statusDelete: "wellFormed s \<Longrightarrow> wellFormed (statusDelete i s)"
  by (auto simp: wellFormed_def statusDelete_def)

lemma handleStatus_parts:
  "handleStatus playerID s =
     (if playerID = [] then (HttpError 400 ''ID is required'', s)
      else
        case players s playerID of
          None \<Rightarrow> (HttpError 404 ''Player not found'', s)
        | Some player \<Rightarrow>
            (case fst (statusReceive player s) of
               Some opponentID \<Rightarrow>
                 (Json [(''status'', ''matched''), (''opponentID'', opponentID),
                        (''roomID'', RoomID (heap s player))],
                  statusDelete playerID (snd (statusReceive player s)))
             | None \<Rightarrow> (Json [(''status'', ''waiting'')], snd (statusReceive player s))))"
  by (simp add: handleStatus_def statusReceive_def statusDelete_def chan_try_recv_def
      split: option.splits list.splits)

lemma wf_handleStatus: "wellFormed s \<Longrightarrow> wellFormed (snd (handleStatus i s))"
  by (simp add: handleStatus_parts wf_statusReceive wf_statusDelete split: option.splits)

lemma wf_statsHandler: "wellFormed s \<Longrightarrow> wellFormed (snd (statsHandler s))"
  by (simp add: statsHandler_def)

lemma cleanup_rooms_Some:
  "cleanupOldRooms_iter s = Inr s' \<Longrightarrow> rooms s' room = Some roomPlayers \<Longrightarrow>
   rooms s room = Some roomPlayers"
  by (auto simp: cleanupOldRooms_iter_def Let_def split: if_splits option.splits)

lemma cleanup_frame:
  "cleanupOldRooms_iter s = Inr s' \<Longrightarrow>
   players s' = players s \<and> pool s' = pool s \<and> heap s' = heap s \<and> nextAddr s' = nextAddr s"
  by (auto simp: cleanupOldRooms_iter_def split: if_splits)

lemma cleanup_total:
  "\<forall>roomPlayers \<in> ran (rooms s). 2 \<le> length roomPlayers \<Longrightarrow>
   \<exists>s'. cleanupOldRooms_iter s = Inr s'"
  by (auto simp: cleanupOldRooms_iter_def)

lemma wf_cleanupOldRooms:
  assumes "wellFormed s"
  shows "\<exists>s'. cleanupOldRooms_iter s = Inr s' \<and> wellFormed s'"
proof -
  from assms have len: "\<forall>roomPlayers \<in> ran (rooms s). length roomPlayers = 2"
    by (simp add: wellFormed_def)
  then have "\<forall>roomPlayers \<in> ran (rooms s). 2 \<le> length roomPlayers" by simp
  then obtain s' where s': "cleanupOldRooms_iter s = Inr s'"
    using cleanup_total by blast
  have "ran (rooms s') \<subseteq> ran (rooms s)"
    using cleanup_rooms_Some [OF s'] by (auto simp: ran_def)
  with len have "\<forall>roomPlayers \<in> ran (rooms s'). length roomPlayers = 2" by blast
  with assms cleanup_frame [OF s'] have "wellFormed s'" by (simp add: wellFormed_def)
  with s' show ?thesis by blast
qed


lemma matchPlayers_iter_few: "length (pool s) < 2 \<Longrightarrow> matchPlayers_iter roomID s = Inr s"
  by (simp add: matchPlayers_iter_def)

lemma matchPlayers_iter_pair:
  assumes "2 \<le> length (pool s)" and "pool s ! 0 \<noteq> pool s ! 1"
    and "OpponentID (heap s (pool s ! 0)) = []" and "OpponentID (heap s (pool s ! 1)) = []"
  shows "matchPlayers_iter roomID s =
    Inr (s\<lparr>heap := (heap s)
             (pool s ! 0 := (heap s (pool s ! 0))
                \<lparr>RoomID := roomID, Matched := True, OpponentID := [ID (heap s (pool s ! 1))]\<rparr>,
              pool s ! 1 := (heap s (pool s ! 1))
                \<lparr>RoomID := roomID, Matched := True, OpponentID := [ID (heap s (pool s ! 0))]\<rparr>),
           pool := drop 2 (pool s),
           rooms := (rooms s)(roomID \<mapsto> [ID (heap s (pool s ! 0)), ID (heap s (pool s ! 1))])\<rparr>)"
  using assms by (simp add: matchPlayers_iter_def Let_def chan_send_def fun_upd_twist)

lemma wellFormed_front:
  assumes "wellFormed s" and "2 \<le> length (pool s)"
  shows "pool s ! 0 \<noteq> pool s ! 1"
    and "OpponentID (heap s (pool s ! 0)) = []"
    and "OpponentID (heap s (pool s ! 1)) = []"
    and "pool s ! 0 \<notin> set (drop 2 (pool s))"
    and "pool s ! 1 \<notin> set (drop 2 (pool s))"
proof -
  from assms(2) obtain a b ps where ps: "pool s = a # b # ps"
    by (cases "pool s"; cases "tl (pool s)") auto
  with assms(1) show "pool s ! 0 \<noteq> pool s ! 1"
    and "OpponentID (heap s (pool s ! 0)) = []"
    and "OpponentID (heap s (pool s ! 1)) = []"
    and "pool s ! 0 \<notin> set (drop 2 (pool s))"
    and "pool s ! 1 \<notin> set (drop 2 (pool s))"
    by (auto simp: wellFormed_def)
qed

lemma wf_matchPlayers:
  assumes "wellFormed s"
  shows "\<exists>s'. matchPlayers_iter roomID s = Inr s' \<and> wellFormed s'"
proof (cases "2 \<le> length (pool s)")
  case False
  with assms show ?thesis by (simp add: matchPlayers_iter_few)
next
  case True
  note front = wellFormed_front [OF assms True]
  have sub: "set (drop 2 (pool s)) \<subseteq> set (pool s)" by (rule set_drop_subset)
  have "wellFormed (s\<lparr>heap := (heap s)
             (pool s ! 0 := (heap s (pool s ! 0))
                \<lparr>RoomID := roomID, Matched := True, OpponentID := [ID (heap s (pool s ! 1))]\<rparr>,
              pool s ! 1 := (heap s (pool s ! 1))
                \<lparr>RoomID := roomID, Matched := True, OpponentID := [ID (heap s (pool s ! 0))]\<rparr>),
           pool := drop 2 (pool s),
           rooms := (rooms s)(roomID \<mapsto> [ID (heap s (pool s ! 0)), ID (heap s (pool s ! 1))])\<rparr>)"
    using assms front(4,5) sub by (auto simp: wellFormed_def ran_def)
  then show ?thesis
    using matchPlayers_iter_pair [OF True front(1,2,3)] by simp
qed

lemma wf_step: "wellFormed s \<Longrightarrow> \<exists>s'. step e s = Inr s' \<and> wellFormed s'"
  by (cases e)
    (simp_all add: wf_handleJoin wf_handleCancel wf_handleStatus wf_statusReceive
      wf_statusDelete wf_statsHandler wf_matchPlayers wf_cleanupOldRooms)

lemma wf_run: "wellFormed s \<Longrightarrow> \<exists>s'. run es s = Inr s' \<and> wellFormed s'"
proof (induction es arbitrary: s)
  case Nil
  then show ?case by simp
next
  case (Cons e es)
  from wf_step [OF Cons.prems] obtain s1 where s1: "step e s = Inr s1" "wellFormed s1"
    by blast
  from Cons.IH [OF s1(2)] s1(1) show ?case by simp
qed

lemma wf_run_init: "run es init = Inr s \<Longrightarrow> wellFormed s"
  using wf_run [OF wf_init, of es] by auto


lemma removeFromPool_once:
  "length (filter (\<lambda>p. ID (h p) = i) ps) \<le> 1 \<Longrightarrow>
   removeFromPool h i ps = filter (\<lambda>p. ID (h p) \<noteq> i) ps"
proof (induction ps)
  case Nil
  then show ?case by simp
next
  case (Cons p ps)
  show ?case
  proof (cases "ID (h p) = i")
    case True
    with Cons.prems have "filter (\<lambda>p. ID (h p) = i) ps = []" by simp
    then have "\<forall>q \<in> set ps. ID (h q) \<noteq> i" by (simp add: filter_empty_conv)
    then have "filter (\<lambda>p. ID (h p) \<noteq> i) ps = ps" by simp
    with True show ?thesis by simp
  next
    case False
    with Cons show ?thesis by simp
  qed
qed

lemma distinct_ids_handleJoin:
  assumes "wellFormed s" and "distinct (poolIDs s)" and "i \<notin> set (poolIDs s)"
  shows "distinct (poolIDs (snd (handleJoin i t s)))"
proof -
  from assms(1) have "\<forall>p \<in> set (pool s). p \<noteq> nextAddr s"
    by (auto simp: wellFormed_def)
  then have eq: "map (\<lambda>p. ID (if p = nextAddr s then x else heap s p)) (pool s) =
      map (\<lambda>p. ID (heap s p)) (pool s)" for x
    by (intro map_cong) auto
  from assms(2,3) show ?thesis
    by (simp add: handleJoin_def Let_def eq)
qed

lemma distinct_ids_handleCancel:
  assumes "distinct (poolIDs s)"
  shows "distinct (poolIDs (snd (handleCancel i s)))"
proof -
  from assms have "distinct (map (\<lambda>p. ID (heap s p)) (pool s))" by simp
  then have "distinct (map (\<lambda>p. ID (heap s p)) (removeFromPool (heap s) i (pool s)))"
    by (simp add: removeFromPool_filter distinct_map_filter)
  with assms show ?thesis by (simp add: handleCancel_def Let_def)
qed

lemma poolIDs_handleStatus: "poolIDs (snd (handleStatus i s)) = poolIDs s"
  by (simp add: handleStatus_def chan_try_recv_def split: option.splits list.splits)

lemma poolIDs_statusReceive: "poolIDs (snd (statusReceive p s)) = poolIDs s"
  by (simp add: statusReceive_def chan_try_recv_def split: option.splits list.splits)

lemma poolIDs_matchPlayers:
  assumes "wellFormed s" and "matchPlayers_iter roomID s = Inr s'"
  shows "poolIDs s' = (if 2 \<le> length (pool s) then drop 2 (poolIDs s) else poolIDs s)"
proof (cases "2 \<le> length (pool s)")
  case False
  with assms show ?thesis by (simp add: matchPlayers_iter_few)
next
  case True
  note front = wellFormed_front [OF assms(1) True]
  from assms(2) matchPlayers_iter_pair [OF True front(1,2,3), of roomID]
  have "s' = s\<lparr>heap := (heap s)
             (pool s ! 0 := (heap s (pool s ! 0))
                \<lparr>RoomID := roomID, Matched := True, OpponentID := [ID (heap s (pool s ! 1))]\<rparr>,
              pool s ! 1 := (heap s (pool s ! 1))
                \<lparr>RoomID := roomID, Matched := True, OpponentID := [ID (heap s (pool s ! 0))]\<rparr>),
           pool := drop 2 (pool s),
           rooms := (rooms s)(roomID \<mapsto> [ID (heap s (pool s ! 0)), ID (heap s (pool s ! 1))])\<rparr>"
    by simp
  with True show ?thesis by (simp add: drop_map)
qed

lemma distinct_ids_step:
  assumes "wellFormed s" and "distinct (poolIDs s)" and "freshJoin e s" and "step e s = Inr s'"
  shows "distinct (poolIDs s')"
proof (cases e)
  case (Join i t)
  with assms show ?thesis using distinct_ids_handleJoin [of s i t] by auto
next
  case (Cancel i)
  with assms show ?thesis using distinct_ids_handleCancel [of s i] by auto
next
  case (Status i)
  with assms show ?thesis using poolIDs_handleStatus [of i s] by auto
next
  case (StatusReceive p)
  with assms show ?thesis using poolIDs_statusReceive [of p s] by auto
next
  case (StatusDelete i)
  with assms show ?thesis by (auto simp: statusDelete_def)
next
  case Stats
  with assms show ?thesis by (auto simp: statsHandler_def)
next
  case (Tick r)
  with assms show ?thesis
    using poolIDs_matchPlayers [of s r s'] by (auto simp del: poolIDs.simps)
next
  case Cleanup
  with assms show ?thesis using cleanup_frame [of s s'] by auto
qed

lemma distinct_ids_run:
  "wellFormed s \<Longrightarrow> distinct (poolIDs s) \<Longrightarrow> freshJoins es s \<Longrightarrow> run es s = Inr s' \<Longrightarrow>
   distinct (poolIDs s')"
proof (induction es arbitrary: s)
  case Nil
  then show ?case by simp
next
  case (Cons e es)
  from wf_step [OF Cons.prems(1)] obtain s1 where s1: "step e s = Inr s1" "wellFormed s1"
    by blast
  from Cons.prems(3) s1(1) have fresh: "freshJoin e s" "freshJoins es s1" by simp_all
  from distinct_ids_step [OF Cons.prems(1,2) fresh(1) s1(1)] have "distinct (poolIDs s1)" .
  from Cons.IH [OF s1(2) this fresh(2)] Cons.prems(4) s1(1) show ?case by simp
qed

lemma distinct_ids_run_init:
  "freshJoins es init \<Longrightarrow> run es init = Inr s \<Longrightarrow> distinct (poolIDs s)"
proof -
  have "distinct (poolIDs init)" by (simp add: init_def)
  then show "freshJoins es init \<Longrightarrow> run es init = Inr s \<Longrightarrow> distinct (poolIDs s)"
    using distinct_ids_run [OF wf_init] by blast
qed

lemma step_absent:
  "players s i = None \<Longrightarrow> \<not> isJoinOf i e \<Longrightarrow> step e s = Inr s' \<Longrightarrow> players s' i = None"
proof (cases e)
  case (Tick r)
  assume "players s i = None" and "step e s = Inr s'"
  with Tick show ?thesis
    by (auto simp: matchPlayers_iter_def Let_def split: if_splits option.splits)
next
  case Cleanup
  assume "players s i = None" and "step e s = Inr s'"
  with Cleanup show ?thesis using cleanup_frame [of s s'] by simp
qed (auto simp: handleJoin_def handleCancel_def handleStatus_def statusReceive_def
       statusDelete_def statsHandler_def Let_def split: option.splits if_splits)

lemma run_absent:
  "players s i = None \<Longrightarrow> \<forall>e \<in> set es. \<not> isJoinOf i e \<Longrightarrow> run es s = Inr s' \<Longrightarrow>
   players s' i = None"
proof (induction es arbitrary: s)
  case Nil
  then show ?case by simp
next
  case (Cons e es)
  from Cons.prems(3) obtain s1 where s1: "step e s = Inr s1" "run es s1 = Inr s'"
    by (auto split: sum.splits)
  from step_absent [OF Cons.prems(1) _ s1(1)] Cons.prems(2) have "players s1 i = None" by simp
  from Cons.IH [OF this _ s1(2)] Cons.prems(2) show ?case by simp
qed

text \<open>
  A player that is allocated, outside the pool and has an empty result channel stays
  so: joins allocate new players, and the matching loop sends to pool entries only.
\<close>

lemma drained_step:
  assumes "p < nextAddr s" and "p \<notin> set (pool s)" and "OpponentID (heap s p) = []"
    and "step e s = Inr s'"
  shows "p < nextAddr s' \<and> p \<notin> set (pool s') \<and> OpponentID (heap s' p) = []"
proof (cases e)
  case (Join i t)
  with assms show ?thesis by (cases "i = []") (auto simp: handleJoin_def Let_def)
next
  case (Cancel i)
  with assms show ?thesis
    using set_removeFromPool [of "heap s" i "pool s"]
    by (cases "i = []") (auto simp: handleCancel_def Let_def)
next
  case (Status i)
  with assms show ?thesis
    by (cases "i = []")
      (auto simp: handleStatus_def chan_try_recv_def split: option.splits list.splits)
next
  case (StatusReceive q)
  with assms show ?thesis
    by (auto simp: statusReceive_def chan_try_recv_def split: option.splits list.splits)
next
  case (StatusDelete i)
  with assms show ?thesis by (auto simp: statusDelete_def)
next
  case Stats
  with assms show ?thesis by (auto simp: statsHandler_def)
next
  case (Tick r)
  show ?thesis
  proof (cases "2 \<le> length (pool s)")
    case False
    with assms Tick show ?thesis by (simp add: matchPlayers_iter_few)
  next
    case True
    then have l: "0 < length (pool s)" "1 < length (pool s)" by arith+
    have "pool s ! 0 \<in> set (pool s)" and "pool s ! 1 \<in> set (pool s)"
      using nth_mem [OF l(1)] nth_mem [OF l(2)] by blast+
    with assms(2) have ne: "p \<noteq> pool s ! 0" "p \<noteq> pool s ! 1" by auto
    have "set (drop 2 (pool s)) \<subseteq> set (pool s)" by (rule set_drop_subset)
    with assms(2) have "p \<notin> set (drop 2 (pool s))" by auto
    with assms Tick True ne show ?thesis
      by (auto simp: matchPlayers_iter_def Let_def chan_send_def split: if_splits)
  qed
next
  case Cleanup
  with assms show ?thesis using cleanup_frame [of s s'] by simp
qed

lemma drained_run:
  "p < nextAddr s \<Longrightarrow> p \<notin> set (pool s) \<Longrightarrow> OpponentID (heap s p) = [] \<Longrightarrow>
   run es s = Inr s' \<Longrightarrow> OpponentID (heap s' p) = []"
proof (induction es arbitrary: s)
  case Nil
  then show ?case by simp
next
  case (Cons e es)
  from Cons.prems(4) obtain s1 where s1: "step e s = Inr s1" "run es s1 = Inr s'"
    by (auto split: sum.splits)
  from drained_step [OF Cons.prems(1,2,3) s1(1)] Cons.IH [OF _ _ _ s1(2)]
  show ?case by blast
qed

lemma handleCancel_absent:
  assumes "i \<noteq> []" and "players s i = None" and "i \<notin> set (poolIDs s)"
  shows "handleCancel i s = (Json [(''status'', ''cancelled'')], s)"
proof -
  from assms(3) have "\<forall>p \<in> set (pool s). ID (heap s p) \<noteq> i" by auto
  then have "removeFromPool (heap s) i (pool s) = pool s" by (rule removeFromPool_absent)
  moreover from assms(2) have "(players s)(i := None) = players s" by (simp add: fun_upd_idem)
  ultimately show ?thesis using assms(1) by (simp add: handleCancel_def Let_def)
qed

lemma handleCancel_once:
  assumes "i \<noteq> []" and "length (filter (\<lambda>p. ID (heap s p) = i) (pool s)) \<le> 1"
  shows "handleCancel i s =
    (Json [(''status'', ''cancelled'')],
     s\<lparr>players := (players s)(i := None),
       pool := filter (\<lambda>p. ID (heap s p) \<noteq> i) (pool s)\<rparr>)"
  using assms by (simp add: handleCancel_def Let_def removeFromPool_once)

text \<open>
  The cleanup pass of the second copy of the program returns whenever the pass of
  \<^verbatim>\<open>main.go\<close> does, and changes the rooms only.
\<close>

lemma cleanup_copy_rooms:
  "cleanupOldRooms_iter_copy s = Inr s' \<Longrightarrow>
   rooms s' room =
     (case rooms s room of
        None \<Rightarrow> None
      | Some roomPlayers \<Rightarrow>
          if players s (roomPlayers ! 0) = None \<and> players s (roomPlayers ! 1) = None
          then None else Some roomPlayers)"
  by (auto simp: cleanupOldRooms_iter_copy_def Let_def split: if_splits option.splits)

lemma cleanup_copy_frame:
  "cleanupOldRooms_iter_copy s = Inr s' \<Longrightarrow>
   players s' = players s \<and> pool s' = pool s \<and> heap s' = heap s \<and> nextAddr s' = nextAddr s"
  by (auto simp: cleanupOldRooms_iter_copy_def split: if_splits)

lemma cleanup_copy_total:
  "wellFormed s \<Longrightarrow> \<exists>s'. cleanupOldRooms_iter_copy s = Inr s'"
  by (auto simp: cleanupOldRooms_iter_copy_def wellFormed_def)

lemma cleanup_rooms:
  "cleanupOldRooms_iter s = Inr s' \<Longrightarrow>
   rooms s' room =
     (case rooms s room of
        None \<Rightarrow> None
      | Some roomPlayers \<Rightarrow>
          if players s (roomPlayers ! 0) = None \<or> players s (roomPlayers ! 1) = None
          then None else Some roomPlayers)"
  by (auto simp: cleanupOldRooms_iter_def Let_def split: if_splits option.splits)

section \<open>The join operation\<close>

text \<open>
  Claim C6. A join with the empty id is answered with status 400 and the message
  \<^verbatim>\<open>ID is required\<close>, and the state stays as it was. A join with any other id,
  registered before or not, answers \<^verbatim>\<open>{"status": "waiting", "playerID": id}\<close>,
  allocates a new player with \<open>Matched = False\<close>, an empty room id and an empty
  result channel, registers it under the id (overwriting what was registered there)
  and appends it to the back of the pool; the rooms and all other players stay as
  they were.
\<close>

theorem handleJoin_spec:
  "handleJoin [] now s = (HttpError 400 ''ID is required'', s) \<and>
   (playerID \<noteq> [] \<longrightarrow>
      fst (handleJoin playerID now s) = Json [(''status'', ''waiting''), (''playerID'', playerID)] \<and>
      players (snd (handleJoin playerID now s)) = (players s)(playerID \<mapsto> nextAddr s) \<and>
      pool (snd (handleJoin playerID now s)) = pool s @ [nextAddr s] \<and>
      heap (snd (handleJoin playerID now s)) (nextAddr s) =
        \<lparr>ID = playerID, Matched = False, CreatedAt = now, OpponentID = [], RoomID = []\<rparr> \<and>
      (\<forall>p. p \<noteq> nextAddr s \<longrightarrow> heap (snd (handleJoin playerID now s)) p = heap s p) \<and>
      rooms (snd (handleJoin playerID now s)) = rooms s \<and>
      nextAddr (snd (handleJoin playerID now s)) = Suc (nextAddr s))"
  by (simp add: handleJoin_def Let_def)

theorem handleJoin_spec_witness:
  "''A'' \<noteq> [] \<and>
   handleJoin ''A'' 7 (snd (handleJoin ''A'' 0 init)) =
     (Json [(''status'', ''waiting''), (''playerID'', ''A'')],
      \<lparr>players = [''A'' \<mapsto> 1], rooms = Map.empty, pool = [0, 1],
       heap = (\<lambda>a. newPlayer)
         (0 := \<lparr>ID = ''A'', Matched = False, CreatedAt = 0, OpponentID = [], RoomID = []\<rparr>,
          1 := \<lparr>ID = ''A'', Matched = False, CreatedAt = 7, OpponentID = [], RoomID = []\<rparr>),
       nextAddr = 2\<rparr>) \<and>
   handleJoin [] 7 init = (HttpError 400 ''ID is required'', init)"
  using handleJoin_spec [of 7 "snd (handleJoin ''A'' 0 init)" "''A''"]
    handleJoin_spec [of 7 init "''A''"]
  by (simp add: handleJoin_def init_def Let_def)

section \<open>The statistics snapshot\<close>

text \<open>
  Claim C9. The snapshot (\<^verbatim>\<open>statsHandler\<close> of \<^verbatim>\<open>main.go\<close>, \<^verbatim>\<open>getStats\<close> of the
  second copy) returns the four counters, the waiting players and the rooms, and the
  state after it is the state before it: the registry, the pool, the rooms and every
  player are unchanged.
\<close>

theorem statsHandler_frame:
  "snd (statsHandler s) = s \<and> snd (getStats s) = s \<and>
   fst (getStats s) =
     \<lparr>TotalPlayers = int (card (dom (players s))),
      WaitingPlayers = int (length (pool s)),
      MatchedPlayers = int (card (dom (players s))) - int (length (pool s)),
      ActiveRooms = int (card (dom (rooms s)))\<rparr> \<and>
   fst (statsHandler s) =
     \<lparr>TotalPlayers = int (card (dom (players s))),
      WaitingPlayers = int (length (pool s)),
      MatchedPlayers = int (card (dom (players s))) - int (length (pool s)),
      ActiveRooms = int (card (dom (rooms s))),
      WaitingPlayersList = {p \<in> ran (players s). \<not> Matched (heap s p)},
      ActiveRoomsList = rooms s\<rparr>"
  by (simp add: statsHandler_def getStats_def)

theorem statsHandler_frame_witness:
  "snd (statsHandler (snd (handleJoin ''A'' 0 init))) = snd (handleJoin ''A'' 0 init) \<and>
   WaitingPlayersList (fst (statsHandler (snd (handleJoin ''A'' 0 init)))) = {0} \<and>
   TotalPlayers (fst (statsHandler (snd (handleJoin ''A'' 0 init)))) = 1"
  using statsHandler_frame [of "snd (handleJoin ''A'' 0 init)"]
  by (auto simp: handleJoin_def init_def Let_def)

text \<open>
  Claim C10. The snapshot computes \<open>MatchedPlayers\<close> as the number of registered ids
  minus the length of the pool, with no lower bound. After start-up, joining the id
  \<^verbatim>\<open>A\<close> twice leaves one registered id and two pool entries, and the snapshot
  reports \<open>MatchedPlayers = - 1\<close>.
\<close>

theorem getStats_MatchedPlayers_negative:
  "MatchedPlayers (fst (getStats s)) = int (card (dom (players s))) - int (length (pool s)) \<and>
   MatchedPlayers (fst (statsHandler s)) = int (card (dom (players s))) - int (length (pool s)) \<and>
   MatchedPlayers (fst (getStats (snd (handleJoin ''A'' 1 (snd (handleJoin ''A'' 0 init)))))) = - 1 \<and>
   MatchedPlayers (fst (statsHandler (snd (handleJoin ''A'' 1 (snd (handleJoin ''A'' 0 init)))))) = - 1"
  by (simp add: getStats_def statsHandler_def handleJoin_def init_def Let_def)

theorem getStats_MatchedPlayers_negative_witness:
  "MatchedPlayers (fst (getStats init)) = 0 \<and>
   TotalPlayers (fst (getStats (snd (handleJoin ''A'' 1 (snd (handleJoin ''A'' 0 init)))))) = 1 \<and>
   WaitingPlayers (fst (getStats (snd (handleJoin ''A'' 1 (snd (handleJoin ''A'' 0 init)))))) = 2"
  using getStats_MatchedPlayers_negative [of init]
  by (simp add: getStats_def handleJoin_def init_def Let_def)

section \<open>The status operation\<close>

text \<open>
  Claim C3, as it is written, fails at the empty id: it is not registered, and the
  poll is answered with status 400, \<^verbatim>\<open>ID is required\<close>, not with 404.
\<close>

theorem handleStatus_empty_id_counterexample:
  "players init [] = None \<and>
   fst (handleStatus [] init) \<noteq> HttpError 404 ''Player not found'' \<and>
   fst (handleStatus [] init) = HttpError 400 ''ID is required''"
  by (simp add: handleStatus_def init_def)

text \<open>
  Claim C3, amended. A poll with the empty id is answered with status 400 and leaves
  the state as it was. For every other id: the poll is answered with status 404,
  \<^verbatim>\<open>Player not found\<close>, exactly when the id is not registered, and then the state
  stays as it was; when the id is registered and its result channel holds a value,
  the answer is \<^verbatim>\<open>matched\<close> with that value as the opponent and with the
  player's room id, the id is removed from the registry and the value is taken out
  of the channel, and nothing else changes; when the id is registered and the
  channel is empty, the answer is \<^verbatim>\<open>waiting\<close> and the state stays as it was.
\<close>

theorem handleStatus_spec:
  "handleStatus [] s = (HttpError 400 ''ID is required'', s) \<and>
   (playerID \<noteq> [] \<longrightarrow>
      (fst (handleStatus playerID s) = HttpError 404 ''Player not found'' \<longleftrightarrow>
         players s playerID = None) \<and>
      (players s playerID = None \<longrightarrow> snd (handleStatus playerID s) = s) \<and>
      (\<forall>player opponentID rest.
         players s playerID = Some player \<and> OpponentID (heap s player) = opponentID # rest \<longrightarrow>
         handleStatus playerID s =
           (Json [(''status'', ''matched''), (''opponentID'', opponentID),
                  (''roomID'', RoomID (heap s player))],
            s\<lparr>heap := (heap s)(player := (heap s player)\<lparr>OpponentID := rest\<rparr>),
              players := (players s)(playerID := None)\<rparr>)) \<and>
      (\<forall>player.
         players s playerID = Some player \<and> OpponentID (heap s player) = [] \<longrightarrow>
         handleStatus playerID s = (Json [(''status'', ''waiting'')], s)))"
  by (auto simp: handleStatus_def chan_try_recv_def split: option.splits list.splits)

theorem handleStatus_spec_witness:
  "\<exists>s. run [Join ''A'' 0, Join ''B'' 1, Tick ''r'', Join ''C'' 2] init = Inr s \<and>
     players s ''A'' = Some 0 \<and> OpponentID (heap s 0) = [''B''] \<and>
     handleStatus ''A'' s =
       (Json [(''status'', ''matched''), (''opponentID'', ''B''), (''roomID'', ''r'')],
        s\<lparr>heap := (heap s)(0 := (heap s 0)\<lparr>OpponentID := []\<rparr>),
          players := (players s)(''A'' := None)\<rparr>) \<and>
     players s ''C'' = Some 2 \<and> OpponentID (heap s 2) = [] \<and>
     handleStatus ''C'' s = (Json [(''status'', ''waiting'')], s) \<and>
     players s ''Z'' = None \<and>
     handleStatus ''Z'' s = (HttpError 404 ''Player not found'', s)"
proof -
  let ?es = "[Join ''A'' 0, Join ''B'' 1, Tick ''r'', Join ''C'' 2]"
  from wf_run [OF wf_init, of ?es] obtain s where r: "run ?es init = Inr s" by blast
  from r have a: "players s ''A'' = Some 0" "OpponentID (heap s 0) = [''B'']"
      "RoomID (heap s 0) = ''r''"
    and c: "players s ''C'' = Some 2" "OpponentID (heap s 2) = []"
    and z: "players s ''Z'' = None"
    by (auto simp: handleJoin_def matchPlayers_iter_def chan_send_def init_def Let_def)
  have "handleStatus ''A'' s =
       (Json [(''status'', ''matched''), (''opponentID'', ''B''), (''roomID'', ''r'')],
        s\<lparr>heap := (heap s)(0 := (heap s 0)\<lparr>OpponentID := []\<rparr>),
          players := (players s)(''A'' := None)\<rparr>)"
    using handleStatus_spec [of s "''A''"] a by simp
  moreover have "handleStatus ''C'' s = (Json [(''status'', ''waiting'')], s)"
    using handleStatus_spec [of s "''C''"] c by simp
  moreover have "handleStatus ''Z'' s = (HttpError 404 ''Player not found'', s)"
    using handleStatus_spec [of s "''Z''"] z by (simp add: prod_eq_iff)
  ultimately have "run ?es init = Inr s \<and>
     players s ''A'' = Some 0 \<and> OpponentID (heap s 0) = [''B''] \<and>
     handleStatus ''A'' s =
       (Json [(''status'', ''matched''), (''opponentID'', ''B''), (''roomID'', ''r'')],
        s\<lparr>heap := (heap s)(0 := (heap s 0)\<lparr>OpponentID := []\<rparr>),
          players := (players s)(''A'' := None)\<rparr>) \<and>
     players s ''C'' = Some 2 \<and> OpponentID (heap s 2) = [] \<and>
     handleStatus ''C'' s = (Json [(''status'', ''waiting'')], s) \<and>
     players s ''Z'' = None \<and>
     handleStatus ''Z'' s = (HttpError 404 ''Player not found'', s)"
    using r a c z by simp
  then show ?thesis by (intro exI)
qed

text \<open>
  Claim C5, as it is written, fails for a matched player whose id is cancelled or
  joined again before its poll. After \<^verbatim>\<open>A\<close> and \<^verbatim>\<open>B\<close> are matched, the result
  channel of the player of \<^verbatim>\<open>A\<close> holds \<^verbatim>\<open>B\<close>; a cancel of \<^verbatim>\<open>A\<close> (which deletes
  without looking at \<open>Matched\<close>) makes the poll answer 404, and a second join of
  \<^verbatim>\<open>A\<close> makes it answer \<^verbatim>\<open>waiting\<close>: in neither case is the value delivered.
\<close>

theorem handleStatus_unregistered_match_counterexample:
  "(case run [Join ''A'' 0, Join ''B'' 1, Tick ''r'', Cancel ''A''] init of
      Inl f \<Rightarrow> None
    | Inr s \<Rightarrow> Some (ID (heap s 0), OpponentID (heap s 0), fst (handleStatus ''A'' s))) =
     Some (''A'', [''B''], HttpError 404 ''Player not found'') \<and>
   (case run [Join ''A'' 0, Join ''B'' 1, Tick ''r'', Join ''A'' 2] init of
      Inl f \<Rightarrow> None
    | Inr s \<Rightarrow> Some (ID (heap s 0), OpponentID (heap s 0), fst (handleStatus ''A'' s))) =
     Some (''A'', [''B''], Json [(''status'', ''waiting'')])"
  by (simp add: handleJoin_def handleCancel_def handleStatus_def matchPlayers_iter_def
      chan_send_def chan_try_recv_def init_def Let_def)

text \<open>
  Claim C5, amended. In every state reached from start-up, for a player that is
  still registered under its id and whose result channel holds a value: the poll on
  the id answers \<^verbatim>\<open>matched\<close> with this value and the player's room id, leaves the
  channel empty and removes the id from the registry, changing nothing else. After
  that, whatever steps follow, as long as none of them is a join with this id, a
  poll on the id is answered with status 404 and changes nothing, and the channel of
  the player is still empty, so a poll that had looked the player up before cannot
  receive the value a second time.
\<close>

theorem handleStatus_consumes_once:
  assumes "run es init = Inr s"
    and "players s playerID = Some player"
    and "OpponentID (heap s player) = opponentID # rest"
    and "\<forall>e \<in> set es'. \<not> isJoinOf playerID e"
  shows "handleStatus playerID s =
      (Json [(''status'', ''matched''), (''opponentID'', opponentID),
             (''roomID'', RoomID (heap s player))],
       s\<lparr>heap := (heap s)(player := (heap s player)\<lparr>OpponentID := []\<rparr>),
         players := (players s)(playerID := None)\<rparr>) \<and>
    (\<exists>s'. run es' (snd (handleStatus playerID s)) = Inr s' \<and>
       handleStatus playerID s' = (HttpError 404 ''Player not found'', s') \<and>
       statusReceive player s' = (None, s'))"
proof -
  let ?s1 = "s\<lparr>heap := (heap s)(player := (heap s player)\<lparr>OpponentID := []\<rparr>),
               players := (players s)(playerID := None)\<rparr>"
  from assms(1) have wf: "wellFormed s" by (rule wf_run_init)
  with assms(2) have ne: "playerID \<noteq> []" and alloc: "player < nextAddr s"
    by (auto simp: wellFormed_def)
  from wf have "length (OpponentID (heap s player)) \<le> 1" by (simp add: wellFormed_def)
  with assms(3) have rest: "rest = []" by simp
  from wf assms(3) have out: "player \<notin> set (pool s)" by (auto simp: wellFormed_def)
  from ne assms(2,3) rest have first: "handleStatus playerID s =
      (Json [(''status'', ''matched''), (''opponentID'', opponentID),
             (''roomID'', RoomID (heap s player))], ?s1)"
    by (simp add: handleStatus_def chan_try_recv_def)
  from wf have "wellFormed (snd (handleStatus playerID s))" by (rule wf_handleStatus)
  with first have "wellFormed ?s1" by simp
  from wf_run [OF this, of es'] obtain s' where s': "run es' ?s1 = Inr s'" by blast
  have "players ?s1 playerID = None" by simp
  from run_absent [OF this assms(4) s'] have "players s' playerID = None" .
  with ne have gone: "handleStatus playerID s' = (HttpError 404 ''Player not found'', s')"
    by (simp add: handleStatus_def)
  have "player < nextAddr ?s1" and "player \<notin> set (pool ?s1)"
    and "OpponentID (heap ?s1 player) = []"
    using alloc out by simp_all
  from drained_run [OF this s'] have "OpponentID (heap s' player) = []" .
  then have "statusReceive player s' = (None, s')"
    by (simp add: statusReceive_def chan_try_recv_def)
  with first s' gone show ?thesis by simp
qed

theorem handleStatus_consumes_once_witness:
  "\<exists>s. run [Join ''A'' 0, Join ''B'' 1, Tick ''r''] init = Inr s \<and>
     players s ''A'' = Some 0 \<and> OpponentID (heap s 0) = [''B''] \<and>
     handleStatus ''A'' s =
       (Json [(''status'', ''matched''), (''opponentID'', ''B''), (''roomID'', ''r'')],
        s\<lparr>heap := (heap s)(0 := (heap s 0)\<lparr>OpponentID := []\<rparr>),
          players := (players s)(''A'' := None)\<rparr>) \<and>
     (\<exists>s'. run [Status ''B'', StatusReceive 0, Cleanup, Join ''C'' 2]
              (snd (handleStatus ''A'' s)) = Inr s' \<and>
        handleStatus ''A'' s' = (HttpError 404 ''Player not found'', s') \<and>
        statusReceive 0 s' = (None, s'))"
proof -
  let ?es = "[Join ''A'' 0, Join ''B'' 1, Tick ''r'']"
  let ?es' = "[Status ''B'', StatusReceive 0, Cleanup, Join ''C'' 2]"
  from wf_run [OF wf_init, of ?es] obtain s where r: "run ?es init = Inr s" by blast
  from r have a: "players s ''A'' = Some 0" "OpponentID (heap s 0) = [''B'']"
      "RoomID (heap s 0) = ''r''"
    by (auto simp: handleJoin_def matchPlayers_iter_def chan_send_def init_def Let_def)
  have n: "\<forall>e \<in> set ?es'. \<not> isJoinOf ''A'' e" by simp
  from handleStatus_consumes_once [OF r a(1) a(2) n]
  have h1: "handleStatus ''A'' s =
       (Json [(''status'', ''matched''), (''opponentID'', ''B''),
              (''roomID'', RoomID (heap s 0))],
        s\<lparr>heap := (heap s)(0 := (heap s 0)\<lparr>OpponentID := []\<rparr>),
          players := (players s)(''A'' := None)\<rparr>)"
    and h2: "\<exists>s'. run ?es' (snd (handleStatus ''A'' s)) = Inr s' \<and>
        handleStatus ''A'' s' = (HttpError 404 ''Player not found'', s') \<and>
        statusReceive 0 s' = (None, s')"
    by blast+
  from h1 a(3) have h1': "handleStatus ''A'' s =
       (Json [(''status'', ''matched''), (''opponentID'', ''B''), (''roomID'', ''r'')],
        s\<lparr>heap := (heap s)(0 := (heap s 0)\<lparr>OpponentID := []\<rparr>),
          players := (players s)(''A'' := None)\<rparr>)"
    by simp
  have "run ?es init = Inr s \<and>
     players s ''A'' = Some 0 \<and> OpponentID (heap s 0) = [''B''] \<and>
     handleStatus ''A'' s =
       (Json [(''status'', ''matched''), (''opponentID'', ''B''), (''roomID'', ''r'')],
        s\<lparr>heap := (heap s)(0 := (heap s 0)\<lparr>OpponentID := []\<rparr>),
          players := (players s)(''A'' := None)\<rparr>) \<and>
     (\<exists>s'. run ?es' (snd (handleStatus ''A'' s)) = Inr s' \<and>
        handleStatus ''A'' s' = (HttpError 404 ''Player not found'', s') \<and>
        statusReceive 0 s' = (None, s'))"
    by (intro conjI) (rule r a(1) a(2) h1' h2)+
  then show ?thesis by (intro exI)
qed

section \<open>The cancel operation\<close>

text \<open>
  Claim C7, as it is written, fails twice. After the id \<^verbatim>\<open>A\<close> has joined twice and
  has been cancelled once, it is absent from the registry, yet its second entry is
  still in the pool and a second cancel removes it. And the empty id, which is never
  registered, is answered with status 400, not with \<^verbatim>\<open>cancelled\<close>.
\<close>

theorem handleCancel_unknown_id_counterexample:
  "players (snd (handleCancel ''A'' (snd (handleJoin ''A'' 1 (snd (handleJoin ''A'' 0 init)))))) ''A''
     = None \<and>
   pool (snd (handleCancel ''A'' (snd (handleJoin ''A'' 1 (snd (handleJoin ''A'' 0 init)))))) = [1] \<and>
   pool (snd (handleCancel ''A''
     (snd (handleCancel ''A'' (snd (handleJoin ''A'' 1 (snd (handleJoin ''A'' 0 init)))))))) = [] \<and>
   players init [] = None \<and>
   fst (handleCancel [] init) = HttpError 400 ''ID is required''"
  by (simp add: handleCancel_def handleJoin_def init_def Let_def)

text \<open>
  Claim C7, amended. A cancel with the empty id is answered with status 400 and leaves
  the state as it was. In every state and for every other id, the answer is
  \<^verbatim>\<open>cancelled\<close>, the id is removed from the registry if it was there, the first
  entry of the pool that carries the id is removed if there is one, and nothing else
  changes. So a cancel of an id that is neither registered nor carried by a pool
  entry changes nothing, whether it is the first or the second one; and when the
  pool holds at most one entry with the id, the cancel leaves no entry with the id
  in the pool, and a second cancel of the same id gets the same answer and changes
  nothing.
\<close>

theorem handleCancel_spec:
  "handleCancel [] s = (HttpError 400 ''ID is required'', s) \<and>
   (playerID \<noteq> [] \<longrightarrow>
      fst (handleCancel playerID s) = Json [(''status'', ''cancelled'')] \<and>
      players (snd (handleCancel playerID s)) = (players s)(playerID := None) \<and>
      pool (snd (handleCancel playerID s)) = removeFromPool (heap s) playerID (pool s) \<and>
      rooms (snd (handleCancel playerID s)) = rooms s \<and>
      heap (snd (handleCancel playerID s)) = heap s \<and>
      nextAddr (snd (handleCancel playerID s)) = nextAddr s \<and>
      (players s playerID = None \<and> playerID \<notin> set (poolIDs s) \<longrightarrow>
         handleCancel playerID s = (Json [(''status'', ''cancelled'')], s)) \<and>
      (length (filter (\<lambda>p. ID (heap s p) = playerID) (pool s)) \<le> 1 \<longrightarrow>
         pool (snd (handleCancel playerID s)) =
           filter (\<lambda>p. ID (heap s p) \<noteq> playerID) (pool s) \<and>
         playerID \<notin> set (poolIDs (snd (handleCancel playerID s))) \<and>
         handleCancel playerID (snd (handleCancel playerID s)) =
           (Json [(''status'', ''cancelled'')], snd (handleCancel playerID s))))"
proof (intro conjI impI)
  show "handleCancel [] s = (HttpError 400 ''ID is required'', s)"
    by (simp add: handleCancel_def)
next
  assume "playerID \<noteq> []"
  then show "fst (handleCancel playerID s) = Json [(''status'', ''cancelled'')]"
    and "players (snd (handleCancel playerID s)) = (players s)(playerID := None)"
    and "pool (snd (handleCancel playerID s)) = removeFromPool (heap s) playerID (pool s)"
    and "rooms (snd (handleCancel playerID s)) = rooms s"
    and "heap (snd (handleCancel playerID s)) = heap s"
    and "nextAddr (snd (handleCancel playerID s)) = nextAddr s"
    by (simp_all add: handleCancel_def Let_def)
next
  assume "playerID \<noteq> []" and "players s playerID = None \<and> playerID \<notin> set (poolIDs s)"
  then show "handleCancel playerID s = (Json [(''status'', ''cancelled'')], s)"
    using handleCancel_absent [of playerID s] by blast
next
  assume ne: "playerID \<noteq> []"
    and one: "length (filter (\<lambda>p. ID (heap s p) = playerID) (pool s)) \<le> 1"
  let ?s1 = "s\<lparr>players := (players s)(playerID := None),
               pool := filter (\<lambda>p. ID (heap s p) \<noteq> playerID) (pool s)\<rparr>"
  from handleCancel_once [OF ne one] have s1: "snd (handleCancel playerID s) = ?s1" by simp
  then show "pool (snd (handleCancel playerID s)) =
      filter (\<lambda>p. ID (heap s p) \<noteq> playerID) (pool s)"
    by simp
  have out: "playerID \<notin> set (poolIDs ?s1)" by auto
  with s1 show "playerID \<notin> set (poolIDs (snd (handleCancel playerID s)))" by simp
  have "players ?s1 playerID = None" by simp
  from handleCancel_absent [OF ne this out] s1
  show "handleCancel playerID (snd (handleCancel playerID s)) =
      (Json [(''status'', ''cancelled'')], snd (handleCancel playerID s))"
    by simp
qed

theorem handleCancel_spec_witness:
  "''Z'' \<noteq> [] \<and> ''A'' \<noteq> [] \<and>
   players (snd (handleJoin ''B'' 1 (snd (handleJoin ''A'' 0 init)))) ''Z'' = None \<and>
   ''Z'' \<notin> set (poolIDs (snd (handleJoin ''B'' 1 (snd (handleJoin ''A'' 0 init))))) \<and>
   handleCancel ''Z'' (snd (handleJoin ''B'' 1 (snd (handleJoin ''A'' 0 init)))) =
     (Json [(''status'', ''cancelled'')], snd (handleJoin ''B'' 1 (snd (handleJoin ''A'' 0 init)))) \<and>
   players (snd (handleJoin ''B'' 1 (snd (handleJoin ''A'' 0 init)))) ''A'' = Some 0 \<and>
   pool (snd (handleJoin ''B'' 1 (snd (handleJoin ''A'' 0 init)))) = [0, 1] \<and>
   length (filter (\<lambda>p. ID (heap (snd (handleJoin ''B'' 1 (snd (handleJoin ''A'' 0 init)))) p) = ''A'')
     (pool (snd (handleJoin ''B'' 1 (snd (handleJoin ''A'' 0 init)))))) \<le> 1 \<and>
   pool (snd (handleCancel ''A'' (snd (handleJoin ''B'' 1 (snd (handleJoin ''A'' 0 init)))))) = [1] \<and>
   players (snd (handleCancel ''A'' (snd (handleJoin ''B'' 1 (snd (handleJoin ''A'' 0 init))))))
     ''A'' = None \<and>
   handleCancel ''A'' (snd (handleCancel ''A'' (snd (handleJoin ''B'' 1 (snd (handleJoin ''A'' 0 init)))))) =
     (Json [(''status'', ''cancelled'')],
      snd (handleCancel ''A'' (snd (handleJoin ''B'' 1 (snd (handleJoin ''A'' 0 init))))))"
  using handleCancel_spec [of "snd (handleJoin ''B'' 1 (snd (handleJoin ''A'' 0 init)))" "''Z''"]
    handleCancel_spec [of "snd (handleJoin ''B'' 1 (snd (handleJoin ''A'' 0 init)))" "''A''"]
  by (simp add: handleJoin_def init_def Let_def)

section \<open>The matching loop\<close>

text \<open>
  Claim C1, as it is written, fails when the same id joins twice before a matching
  iteration: the two entries are paired with each other and the room holds the id
  \<^verbatim>\<open>A\<close> twice.
\<close>

theorem matchPlayers_room_same_id_counterexample:
  "(case run [Join ''A'' 0, Join ''A'' 1, Tick ''r''] init of
      Inl f \<Rightarrow> None | Inr s \<Rightarrow> rooms s ''r'') = Some [''A'', ''A'']"
  by (simp add: handleJoin_def matchPlayers_iter_def chan_send_def init_def Let_def)

text \<open>
  Claim C1, amended. In every state reached from start-up, an iteration of the
  matching loop over a pool of fewer than two entries creates no room and changes
  nothing; over a pool of two or more entries it creates one room, whose members
  are exactly two ids, the ids of the first and of the second entry of the pool.
  These two entries are always two different players; their ids are different
  whenever the run has joined freshly, that is, no id was joined while an entry with
  this id was in the pool.
\<close>

theorem matchPlayers_room_members:
  assumes "run es init = Inr s"
  shows "(length (pool s) < 2 \<longrightarrow> matchPlayers_iter roomID s = Inr s) \<and>
    (2 \<le> length (pool s) \<longrightarrow>
      (\<exists>s'. matchPlayers_iter roomID s = Inr s' \<and>
         rooms s' roomID = Some [ID (heap s (pool s ! 0)), ID (heap s (pool s ! 1))] \<and>
         (\<forall>r. r \<noteq> roomID \<longrightarrow> rooms s' r = rooms s r) \<and>
         pool s ! 0 \<noteq> pool s ! 1 \<and>
         (freshJoins es init \<longrightarrow> ID (heap s (pool s ! 0)) \<noteq> ID (heap s (pool s ! 1)))))"
proof (intro conjI impI)
  assume "length (pool s) < 2"
  then show "matchPlayers_iter roomID s = Inr s" by (rule matchPlayers_iter_few)
next
  assume two: "2 \<le> length (pool s)"
  from assms have wf: "wellFormed s" by (rule wf_run_init)
  note front = wellFormed_front [OF wf two]
  have ids: "ID (heap s (pool s ! 0)) \<noteq> ID (heap s (pool s ! 1))" if "freshJoins es init"
  proof -
    from that assms have "distinct (poolIDs s)" by (rule distinct_ids_run_init)
    then have "distinct (map (\<lambda>p. ID (heap s p)) (pool s))" by simp
    moreover from two have "0 < length (pool s)" and "1 < length (pool s)" by arith+
    ultimately show ?thesis
      using nth_eq_iff_index_eq [of "map (\<lambda>p. ID (heap s p)) (pool s)" 0 1] by simp
  qed
  show "\<exists>s'. matchPlayers_iter roomID s = Inr s' \<and>
         rooms s' roomID = Some [ID (heap s (pool s ! 0)), ID (heap s (pool s ! 1))] \<and>
         (\<forall>r. r \<noteq> roomID \<longrightarrow> rooms s' r = rooms s r) \<and>
         pool s ! 0 \<noteq> pool s ! 1 \<and>
         (freshJoins es init \<longrightarrow> ID (heap s (pool s ! 0)) \<noteq> ID (heap s (pool s ! 1)))"
    using matchPlayers_iter_pair [OF two front(1,2,3), of roomID] front(1) ids
    by simp
qed

theorem matchPlayers_room_members_witness:
  "run [Join ''A'' 0, Join ''B'' 1] init =
     Inr (snd (handleJoin ''B'' 1 (snd (handleJoin ''A'' 0 init)))) \<and>
   freshJoins [Join ''A'' 0, Join ''B'' 1] init \<and>
   2 \<le> length (pool (snd (handleJoin ''B'' 1 (snd (handleJoin ''A'' 0 init))))) \<and>
   (\<exists>s'. matchPlayers_iter ''r'' (snd (handleJoin ''B'' 1 (snd (handleJoin ''A'' 0 init)))) = Inr s' \<and>
      rooms s' ''r'' = Some [''A'', ''B'']) \<and>
   ''A'' \<noteq> ''B''"
proof -
  have r: "run [Join ''A'' 0, Join ''B'' 1] init =
     Inr (snd (handleJoin ''B'' 1 (snd (handleJoin ''A'' 0 init))))"
    by simp
  have f: "freshJoins [Join ''A'' 0, Join ''B'' 1] init"
    by (simp add: handleJoin_def init_def Let_def)
  show ?thesis
    using matchPlayers_room_members [OF r, of "''r''"] r f
    by (auto simp: handleJoin_def init_def Let_def)
qed

text \<open>
  Claim C4. In every state reached from start-up, an iteration of the matching loop
  over a pool of fewer than two entries changes nothing. Otherwise it returns, the
  pool loses its first two entries and keeps the others in order, both players get
  the room id of this iteration, are marked matched and receive each other's id in
  their result channel, the room with their two ids is stored under the room id, and
  no other player, no other room and no registry entry changes.
\<close>

theorem matchPlayers_iter_fifo:
  assumes "run es init = Inr s"
  shows "(length (pool s) < 2 \<longrightarrow> matchPlayers_iter roomID s = Inr s) \<and>
    (2 \<le> length (pool s) \<longrightarrow>
      (\<exists>s'. matchPlayers_iter roomID s = Inr s' \<and>
         pool s' = drop 2 (pool s) \<and>
         heap s' (pool s ! 0) = (heap s (pool s ! 0))
           \<lparr>RoomID := roomID, Matched := True, OpponentID := [ID (heap s (pool s ! 1))]\<rparr> \<and>
         heap s' (pool s ! 1) = (heap s (pool s ! 1))
           \<lparr>RoomID := roomID, Matched := True, OpponentID := [ID (heap s (pool s ! 0))]\<rparr> \<and>
         (\<forall>p. p \<noteq> pool s ! 0 \<and> p \<noteq> pool s ! 1 \<longrightarrow> heap s' p = heap s p) \<and>
         rooms s' = (rooms s)(roomID \<mapsto> [ID (heap s (pool s ! 0)), ID (heap s (pool s ! 1))]) \<and>
         players s' = players s \<and> nextAddr s' = nextAddr s))"
proof (intro conjI impI)
  assume "length (pool s) < 2"
  then show "matchPlayers_iter roomID s = Inr s" by (rule matchPlayers_iter_few)
next
  assume two: "2 \<le> length (pool s)"
  from assms have wf: "wellFormed s" by (rule wf_run_init)
  note front = wellFormed_front [OF wf two]
  show "\<exists>s'. matchPlayers_iter roomID s = Inr s' \<and>
         pool s' = drop 2 (pool s) \<and>
         heap s' (pool s ! 0) = (heap s (pool s ! 0))
           \<lparr>RoomID := roomID, Matched := True, OpponentID := [ID (heap s (pool s ! 1))]\<rparr> \<and>
         heap s' (pool s ! 1) = (heap s (pool s ! 1))
           \<lparr>RoomID := roomID, Matched := True, OpponentID := [ID (heap s (pool s ! 0))]\<rparr> \<and>
         (\<forall>p. p \<noteq> pool s ! 0 \<and> p \<noteq> pool s ! 1 \<longrightarrow> heap s' p = heap s p) \<and>
         rooms s' = (rooms s)(roomID \<mapsto> [ID (heap s (pool s ! 0)), ID (heap s (pool s ! 1))]) \<and>
         players s' = players s \<and> nextAddr s' = nextAddr s"
    using matchPlayers_iter_pair [OF two front(1,2,3), of roomID] front(1)
    by simp
qed

theorem matchPlayers_iter_fifo_witness:
  "run [Join ''A'' 0, Join ''B'' 1, Join ''C'' 2] init =
     Inr (snd (handleJoin ''C'' 2 (snd (handleJoin ''B'' 1 (snd (handleJoin ''A'' 0 init)))))) \<and>
   (\<exists>s'. matchPlayers_iter ''r''
            (snd (handleJoin ''C'' 2 (snd (handleJoin ''B'' 1 (snd (handleJoin ''A'' 0 init)))))) = Inr s' \<and>
      pool s' = [2] \<and> rooms s' = [''r'' \<mapsto> [''A'', ''B'']] \<and>
      heap s' 0 = \<lparr>ID = ''A'', Matched = True, CreatedAt = 0, OpponentID = [''B''], RoomID = ''r''\<rparr> \<and>
      heap s' 1 = \<lparr>ID = ''B'', Matched = True, CreatedAt = 1, OpponentID = [''A''], RoomID = ''r''\<rparr> \<and>
      heap s' 2 = \<lparr>ID = ''C'', Matched = False, CreatedAt = 2, OpponentID = [], RoomID = []\<rparr>) \<and>
   run [Join ''A'' 0] init = Inr (snd (handleJoin ''A'' 0 init)) \<and>
   matchPlayers_iter ''r'' (snd (handleJoin ''A'' 0 init)) = Inr (snd (handleJoin ''A'' 0 init))"
proof -
  have r3: "run [Join ''A'' 0, Join ''B'' 1, Join ''C'' 2] init =
     Inr (snd (handleJoin ''C'' 2 (snd (handleJoin ''B'' 1 (snd (handleJoin ''A'' 0 init))))))"
    by simp
  have r1: "run [Join ''A'' 0] init = Inr (snd (handleJoin ''A'' 0 init))"
    by simp
  show ?thesis
    using matchPlayers_iter_fifo [OF r3, of "''r''"] matchPlayers_iter_fifo [OF r1, of "''r''"] r1 r3
    by (auto simp: handleJoin_def init_def Let_def)
qed

text \<open>
  Claim C8. Every sequence of joins, cancels, polls (whole or in their two parts),
  snapshots, matching iterations and cleanup passes from start-up runs to a state,
  and in this state no player in the pool is marked matched.
\<close>

theorem pool_never_matched:
  "\<exists>s. run es init = Inr s \<and> (\<forall>p \<in> set (pool s). \<not> Matched (heap s p))"
proof -
  from wf_run [OF wf_init, of es] obtain s where "run es init = Inr s" and "wellFormed s"
    by blast
  then show ?thesis by (auto simp: wellFormed_def)
qed

theorem pool_never_matched_witness:
  "\<exists>s. run [Join ''A'' 0, Join ''B'' 1, Join ''C'' 2, Tick ''r''] init = Inr s \<and>
       pool s = [2] \<and> \<not> Matched (heap s 2) \<and> Matched (heap s 0) \<and> Matched (heap s 1)"
proof -
  from pool_never_matched [of "[Join ''A'' 0, Join ''B'' 1, Join ''C'' 2, Tick ''r'']"]
  obtain s where r: "run [Join ''A'' 0, Join ''B'' 1, Join ''C'' 2, Tick ''r''] init = Inr s"
    and m: "\<forall>p \<in> set (pool s). \<not> Matched (heap s p)"
    by blast
  from r have "pool s = [2]" and "Matched (heap s 0)" and "Matched (heap s 1)"
    by (auto simp: handleJoin_def matchPlayers_iter_def chan_send_def init_def Let_def)
  with r m show ?thesis by auto
qed

section \<open>The cleanup task\<close>

text \<open>
  Claim C2, as it is written, fails for the cleanup pass of the second copy of the
  program: after \<^verbatim>\<open>A\<close> and \<^verbatim>\<open>B\<close> are matched in room \<^verbatim>\<open>r\<close> and \<^verbatim>\<open>A\<close> has polled,
  \<^verbatim>\<open>A\<close> is no longer registered, and that pass keeps the room.
\<close>

theorem cleanupOldRooms_copy_keeps_counterexample:
  "(case run [Join ''A'' 0, Join ''B'' 1, Tick ''r'', Status ''A''] init of
      Inl f \<Rightarrow> None
    | Inr s \<Rightarrow>
        (case cleanupOldRooms_iter_copy s of
           Inl f \<Rightarrow> None
         | Inr s' \<Rightarrow> Some (players s ''A'', rooms s ''r'', rooms s' ''r''))) =
     Some (None, Some [''A'', ''B''], Some [''A'', ''B''])"
  by (simp add: handleJoin_def handleStatus_def matchPlayers_iter_def
      cleanupOldRooms_iter_copy_def chan_send_def chan_try_recv_def init_def Let_def)

text \<open>
  Claim C2, amended. In every state reached from start-up every room has two
  members, and both cleanup passes return and change nothing but the rooms. The pass
  of \<^verbatim>\<open>main.go\<close> deletes a room when at least one of its two members is not
  registered and keeps it when both are. The pass of the second copy deletes a room
  when neither of its two members is registered and keeps it when at least one is.
  Neither pass adds a room.
\<close>

theorem cleanupOldRooms_iter_spec:
  assumes "run es init = Inr s"
  shows "(\<forall>room roomPlayers. rooms s room = Some roomPlayers \<longrightarrow> length roomPlayers = 2) \<and>
    (\<exists>s'. cleanupOldRooms_iter s = Inr s' \<and>
       (\<forall>room roomPlayers. rooms s room = Some roomPlayers \<longrightarrow>
          rooms s' room =
            (if players s (roomPlayers ! 0) = None \<or> players s (roomPlayers ! 1) = None
             then None else Some roomPlayers)) \<and>
       (\<forall>room. rooms s room = None \<longrightarrow> rooms s' room = None) \<and>
       players s' = players s \<and> pool s' = pool s \<and> heap s' = heap s \<and>
       nextAddr s' = nextAddr s) \<and>
    (\<exists>s'. cleanupOldRooms_iter_copy s = Inr s' \<and>
       (\<forall>room roomPlayers. rooms s room = Some roomPlayers \<longrightarrow>
          rooms s' room =
            (if players s (roomPlayers ! 0) = None \<and> players s (roomPlayers ! 1) = None
             then None else Some roomPlayers)) \<and>
       (\<forall>room. rooms s room = None \<longrightarrow> rooms s' room = None) \<and>
       players s' = players s \<and> pool s' = pool s \<and> heap s' = heap s \<and>
       nextAddr s' = nextAddr s)"
proof (intro conjI)
  from assms have wf: "wellFormed s" by (rule wf_run_init)
  then show "\<forall>room roomPlayers. rooms s room = Some roomPlayers \<longrightarrow> length roomPlayers = 2"
    by (auto simp: wellFormed_def ran_def)
  from wf_cleanupOldRooms [OF wf] obtain s' where s': "cleanupOldRooms_iter s = Inr s'"
    by blast
  from cleanup_rooms [OF s'] cleanup_frame [OF s'] s'
  show "\<exists>s'. cleanupOldRooms_iter s = Inr s' \<and>
       (\<forall>room roomPlayers. rooms s room = Some roomPlayers \<longrightarrow>
          rooms s' room =
            (if players s (roomPlayers ! 0) = None \<or> players s (roomPlayers ! 1) = None
             then None else Some roomPlayers)) \<and>
       (\<forall>room. rooms s room = None \<longrightarrow> rooms s' room = None) \<and>
       players s' = players s \<and> pool s' = pool s \<and> heap s' = heap s \<and>
       nextAddr s' = nextAddr s"
    by simp
  from cleanup_copy_total [OF wf] obtain s'' where
    s'': "cleanupOldRooms_iter_copy s = Inr s''" by blast
  from cleanup_copy_rooms [OF s''] cleanup_copy_frame [OF s''] s''
  show "\<exists>s'. cleanupOldRooms_iter_copy s = Inr s' \<and>
       (\<forall>room roomPlayers. rooms s room = Some roomPlayers \<longrightarrow>
          rooms s' room =
            (if players s (roomPlayers ! 0) = None \<and> players s (roomPlayers ! 1) = None
             then None else Some roomPlayers)) \<and>
       (\<forall>room. rooms s room = None \<longrightarrow> rooms s' room = None) \<and>
       players s' = players s \<and> pool s' = pool s \<and> heap s' = heap s \<and>
       nextAddr s' = nextAddr s"
    by simp
qed

theorem cleanupOldRooms_iter_spec_witness:
  "\<exists>s s' s''. run [Join ''A'' 0, Join ''B'' 1, Tick ''r'', Join ''C'' 2, Join ''D'' 3, Tick ''q'',
               Status ''A''] init = Inr s \<and>
     rooms s = [''r'' \<mapsto> [''A'', ''B''], ''q'' \<mapsto> [''C'', ''D'']] \<and>
     dom (players s) = {''B'', ''C'', ''D''} \<and>
     cleanupOldRooms_iter s = Inr s' \<and> rooms s' = [''q'' \<mapsto> [''C'', ''D'']] \<and>
     cleanupOldRooms_iter_copy s = Inr s'' \<and> rooms s'' = rooms s"
proof -
  let ?es = "[Join ''A'' 0, Join ''B'' 1, Tick ''r'', Join ''C'' 2, Join ''D'' 3, Tick ''q'',
              Status ''A'']"
  from wf_run [OF wf_init, of ?es] obtain s where r: "run ?es init = Inr s" by blast
  from cleanupOldRooms_iter_spec [OF r] obtain s' s'' where
    c: "cleanupOldRooms_iter s = Inr s'"
    and k: "\<forall>room roomPlayers. rooms s room = Some roomPlayers \<longrightarrow>
       rooms s' room =
         (if players s (roomPlayers ! 0) = None \<or> players s (roomPlayers ! 1) = None
          then None else Some roomPlayers)"
    and a: "\<forall>room. rooms s room = None \<longrightarrow> rooms s' room = None"
    and c': "cleanupOldRooms_iter_copy s = Inr s''"
    and k': "\<forall>room roomPlayers. rooms s room = Some roomPlayers \<longrightarrow>
       rooms s'' room =
         (if players s (roomPlayers ! 0) = None \<and> players s (roomPlayers ! 1) = None
          then None else Some roomPlayers)"
    and a': "\<forall>room. rooms s room = None \<longrightarrow> rooms s'' room = None"
    by blast
  from r have rs: "rooms s = [''r'' \<mapsto> [''A'', ''B''], ''q'' \<mapsto> [''C'', ''D'']]"
    and ps: "players s = [''B'' \<mapsto> 1, ''C'' \<mapsto> 2, ''D'' \<mapsto> 3]"
    by (auto simp: handleJoin_def handleStatus_def matchPlayers_iter_def chan_send_def
        chan_try_recv_def init_def Let_def fun_eq_iff)
  have gone: "rooms s' ''r'' = None"
    using k [rule_format, of "''r''" "[''A'', ''B'']"] rs ps by simp
  have kept: "rooms s' ''q'' = Some [''C'', ''D'']"
    using k [rule_format, of "''q''" "[''C'', ''D'']"] rs ps by simp
  have other: "rooms s' room = None" if "room \<noteq> ''r''" and "room \<noteq> ''q''" for room
    using a [rule_format, of room] rs that by simp
  have main: "rooms s' = [''q'' \<mapsto> [''C'', ''D'']]"
  proof (rule ext)
    fix room
    show "rooms s' room = [''q'' \<mapsto> [''C'', ''D'']] room"
      by (cases "room = ''r''"; cases "room = ''q''") (simp_all add: gone kept other)
  qed
  have keptr: "rooms s'' ''r'' = Some [''A'', ''B'']"
    using k' [rule_format, of "''r''" "[''A'', ''B'']"] rs ps by simp
  have keptq: "rooms s'' ''q'' = Some [''C'', ''D'']"
    using k' [rule_format, of "''q''" "[''C'', ''D'']"] rs ps by simp
  have other': "rooms s'' room = None" if "room \<noteq> ''r''" and "room \<noteq> ''q''" for room
    using a' [rule_format, of room] rs that by simp
  have "rooms s'' = [''r'' \<mapsto> [''A'', ''B''], ''q'' \<mapsto> [''C'', ''D'']]"
  proof (rule ext)
    fix room
    show "rooms s'' room = [''r'' \<mapsto> [''A'', ''B''], ''q'' \<mapsto> [''C'', ''D'']] room"
      by (cases "room = ''r''"; cases "room = ''q''") (simp_all add: keptr keptq other')
  qed
  with rs have copy: "rooms s'' = rooms s" by simp
  from ps have "dom (players s) = {''B'', ''C'', ''D''}" by auto
  with main copy have "run ?es init = Inr s \<and>
     rooms s = [''r'' \<mapsto> [''A'', ''B''], ''q'' \<mapsto> [''C'', ''D'']] \<and>
     dom (players s) = {''B'', ''C'', ''D''} \<and>
     cleanupOldRooms_iter s = Inr s' \<and> rooms s' = [''q'' \<mapsto> [''C'', ''D'']] \<and>
     cleanupOldRooms_iter_copy s = Inr s'' \<and> rooms s'' = rooms s"
    using r c c' rs by simp
  then show ?thesis by (intro exI)
qed

end
